theory Spec2Isabelle
  imports Complex_Main "HOL-Library.Log_Nat"
begin

section \<open>JavaScript values and strings\<close>

text \<open>
  A JavaScript string is modelled as a \<^typ>\<open>string\<close> whose characters are the code units
  0..255 (the Latin-1 range of UTF-16). On that range \<open>toLowerCase\<close> works character by
  character, and the white space of \<open>String.prototype.trim\<close> and of the regular expression
  class \<open>\s\<close> is: tab, line feed, vertical tab, form feed, carriage return, space and the
  no-break space (code 160).
\<close>

definition isSpace :: "char \<Rightarrow> bool" where
  "isSpace c = ((of_char c :: nat) \<in> {9, 10, 11, 12, 13, 32, 160})"

definition trim :: "string \<Rightarrow> string" where
  "trim s = rev (dropWhile isSpace (rev (dropWhile isSpace s)))"

definition lowerChar :: "char \<Rightarrow> char" where
  "lowerChar c =
     (let n = (of_char c :: nat)
      in if (65 \<le> n \<and> n \<le> 90) \<or> (192 \<le> n \<and> n \<le> 222 \<and> n \<noteq> 215)
         then char_of (n + 32) else c)"

definition toLowerCase :: "string \<Rightarrow> string" where
  "toLowerCase s = map lowerChar s"

text \<open>
  The values a parsed model response is made of. \<open>JUndefined\<close> is what reading a missing
  property gives; \<open>JSON.parse\<close> itself never returns it. Numbers are carried as
  rationals: the program only passes them on and tests them for truthiness.
\<close>

datatype jsval =
    JUndefined
  | JNull
  | JBool bool
  | JNum rat
  | JStr string
  | JArr "jsval list"
  | JObj "(string \<times> jsval) list"

datatype error = TypeError | SyntaxError | CallFailed

text \<open>Truthiness, as the operator \<open>||\<close> tests it.\<close>

fun truthy :: "jsval \<Rightarrow> bool" where
  "truthy JUndefined = False"
| "truthy JNull = False"
| "truthy (JBool b) = b"
| "truthy (JNum r) = (r \<noteq> 0)"
| "truthy (JStr s) = (s \<noteq> [])"
| "truthy (JArr xs) = True"
| "truthy (JObj kvs) = True"

definition jsOr :: "jsval \<Rightarrow> jsval \<Rightarrow> jsval" where
  "jsOr a b = (if truthy a then a else b)"

text \<open>
  Reading one of the properties \<open>question\<close>, \<open>options\<close>, \<open>correct_answer\<close>,
  \<open>correctAnswer\<close>, \<open>topic\<close> of a value: \<open>null\<close> and \<open>undefined\<close> throw a TypeError,
  an object gives the property or \<open>undefined\<close>, every other value has no property of these
  names.
\<close>

fun getProp :: "jsval \<Rightarrow> string \<Rightarrow> error + jsval" where
  "getProp JUndefined k = Inl TypeError"
| "getProp JNull k = Inl TypeError"
| "getProp (JObj kvs) k = Inr (case map_of kvs k of None \<Rightarrow> JUndefined | Some v \<Rightarrow> v)"
| "getProp v k = Inr JUndefined"

section \<open>backend/utils/transcriptUtils.js\<close>

subsection \<open>splitTranscriptIntoChunks\<close>

text \<open>
  \<open>transcript.split(/\s+/)\<close>: the pieces between maximal runs of white space; a string that
  starts or ends with white space gives an empty first or last piece, and the empty string
  gives one empty piece. \<open>cur\<close> is the piece being read, \<open>inSep\<close> tells that the previous
  character was white space.
\<close>

fun splitWs :: "string \<Rightarrow> bool \<Rightarrow> string \<Rightarrow> string list" where
  "splitWs cur inSep [] = [cur]"
| "splitWs cur inSep (c # cs) =
     (if isSpace c
      then (if inSep then splitWs cur True cs else cur # splitWs [] True cs)
      else splitWs (cur @ [c]) False cs)"

definition split_ws :: "string \<Rightarrow> string list" where
  "split_ws s = splitWs [] False s"

text \<open>\<open>words.join(' ')\<close>.\<close>

fun join_sp :: "string list \<Rightarrow> string" where
  "join_sp [] = []"
| "join_sp [w] = w"
| "join_sp (w # ws) = w @ '' '' @ join_sp ws"

text \<open>\<open>words.slice(start, end)\<close> for \<open>0 \<le> start\<close> and \<open>0 \<le> end\<close>.\<close>

definition slice :: "nat \<Rightarrow> nat \<Rightarrow> 'a list \<Rightarrow> 'a list" where
  "slice start end xs = drop start (take end xs)"

text \<open>
  The loop \<open>for (let i = 0; i < numChunks; i++)\<close>, as a recursion on the list of its
  indices.
\<close>

fun splitLoop :: "string list \<Rightarrow> nat \<Rightarrow> nat list \<Rightarrow> string list" where
  "splitLoop ws wordsPerChunk [] = []"
| "splitLoop ws wordsPerChunk (i # is) =
     (let start = i * wordsPerChunk;
          end = min (start + wordsPerChunk) (length ws);
          chunk = join_sp (slice start end ws)
      in if length (trim chunk) > 0
         then chunk # splitLoop ws wordsPerChunk is
         else splitLoop ws wordsPerChunk is)"

text \<open>
  The transcript is \<open>None\<close> for \<open>null\<close> or \<open>undefined\<close>. \<open>Math.ceil(words.length /
  numChunks)\<close> is only used when the loop runs, that is for \<open>numChunks \<ge> 1\<close>.
\<close>

definition splitTranscriptIntoChunks :: "string option \<Rightarrow> int \<Rightarrow> string list" where
  "splitTranscriptIntoChunks transcript numChunks =
     (case transcript of
        None \<Rightarrow> []
      | Some t \<Rightarrow>
          if length t = 0 then []
          else if length t < 5000 then [t]
          else
            (let ws = split_ws t;
                 wordsPerChunk = (length ws + nat numChunks - 1) div nat numChunks
             in splitLoop ws wordsPerChunk [0..<nat numChunks]))"

subsection \<open>calculateOptimalChunks\<close>

definition calculateOptimalChunks :: "nat \<Rightarrow> int" where
  "calculateOptimalChunks transcriptLength =
     (if transcriptLength < 5000 then 1
      else if transcriptLength < 20000 then 2
      else if transcriptLength < 40000 then 3
      else if transcriptLength < 60000 then 4
      else if transcriptLength < 80000 then 5
      else 6)"

subsection \<open>distributeQuestionsAcrossChunks\<close>

text \<open>
  JavaScript numbers are IEEE 754 doubles. The arguments are integers that a double holds
  exactly; the result of an operation is the exact result rounded to the nearest double,
  that is to 53 significant bits, a tie going to the even significand. \<open>binade x\<close> is the
  exponent \<open>e\<close> with \<open>2^e \<le> x < 2^(e+1)\<close> of a positive \<open>x\<close>, and the doubles of that binade
  are the multiples of \<open>2^(e-52)\<close>. The exponent range is not modelled: a quotient or a sum
  of integers held in doubles neither overflows nor vanishes.
\<close>

definition roundHalfEven :: "rat \<Rightarrow> int" where
  "roundHalfEven x =
     (let f = \<lfloor>x\<rfloor>; d = x - of_int f
      in if d < 1 / 2 then f
         else if 1 / 2 < d then f + 1
         else if even f then f else f + 1)"

definition binade :: "rat \<Rightarrow> int" where
  "binade x =
     (if 1 \<le> x then bitlen \<lfloor>x\<rfloor> - 1
      else (let j = bitlen \<lfloor>1 / x\<rfloor> - 1
            in if x = 2 powi (- j) then - j else - j - 1))"

definition roundDouble :: "rat \<Rightarrow> rat" where
  "roundDouble x =
     (if x = 0 then 0
      else (let ulp = 2 powi (binade \<bar>x\<bar> - 52)
            in sgn x * of_int (roundHalfEven (\<bar>x\<bar> / ulp)) * ulp))"

text \<open>
  The operators \<open>a / b\<close> and \<open>a + b\<close> on integers held in doubles, and \<open>Math.floor\<close>. A
  rounded sum of two such integers is an integer again. The remainder operator \<open>%\<close> takes
  the sign of the dividend and is exact.
\<close>

definition jsDivide :: "int \<Rightarrow> int \<Rightarrow> rat" where
  "jsDivide a b = roundDouble (of_int a / of_int b)"

definition Math_floor :: "rat \<Rightarrow> int" where
  "Math_floor x = \<lfloor>x\<rfloor>"

definition jsAdd :: "int \<Rightarrow> int \<Rightarrow> int" where
  "jsAdd a b = \<lfloor>roundDouble (of_int a + of_int b)\<rfloor>"

definition jsRem :: "int \<Rightarrow> int \<Rightarrow> int" where
  "jsRem a b = sgn a * (\<bar>a\<bar> mod \<bar>b\<bar>)"

text \<open>
  With \<open>numChunks \<le> 0\<close> the loop body never runs and neither \<open>baseQuestions\<close> nor
  \<open>remainder\<close> is read. The array is taken to hold as many entries as the loop pushes.
\<close>

definition distributeQuestionsAcrossChunks :: "int \<Rightarrow> int \<Rightarrow> int list" where
  "distributeQuestionsAcrossChunks totalQuestions numChunks =
     (let baseQuestions = Math_floor (jsDivide totalQuestions numChunks);
          remainder = jsRem totalQuestions numChunks
      in map (\<lambda>i. jsAdd baseQuestions (if int i < remainder then 1 else 0))
           [0..<nat numChunks])"

subsection \<open>mergeChunkQuizzes\<close>

text \<open>
  A question as \<open>generateQuizFromChunk\<close> builds it. The question text, the correct answer
  and the topic are whatever values the parsed model response held under those names.
\<close>

record quiz_question =
  questionId :: int
  question :: jsval
  options :: "string list"
  correct_answer :: jsval
  topic :: jsval

text \<open>An element of \<open>chunkQuizzes\<close>: an array of questions, or anything else.\<close>

datatype chunk_quiz = QuizArray "quiz_question list" | NotAnArray

text \<open>
  The state of the two loops: \<open>allQuestions\<close>, \<open>seenQuestions\<close> and the counter
  \<open>questionId\<close>.
\<close>

type_synonym merge_state = "quiz_question list \<times> string set \<times> int"

text \<open>
  The inner loop. \<open>question.question.toLowerCase()\<close> throws a TypeError unless the
  question text is a string; the exception leaves both loops.
\<close>

fun mergeQuestions :: "quiz_question list \<Rightarrow> merge_state \<Rightarrow> error + merge_state" where
  "mergeQuestions [] st = Inr st"
| "mergeQuestions (q # qs) (allQuestions, seenQuestions, nextId) =
     (case question q of
        JStr s \<Rightarrow>
          (let normalizedQuestion = trim (toLowerCase s)
           in if normalizedQuestion \<in> seenQuestions
              then mergeQuestions qs (allQuestions, seenQuestions, nextId)
              else mergeQuestions qs
                     (allQuestions @ [q\<lparr>questionId := nextId\<rparr>],
                      insert normalizedQuestion seenQuestions,
                      nextId + 1))
      | _ \<Rightarrow> Inl TypeError)"

text \<open>The outer loop, skipping what is not an array.\<close>

fun mergeChunks :: "chunk_quiz list \<Rightarrow> merge_state \<Rightarrow> error + merge_state" where
  "mergeChunks [] st = Inr st"
| "mergeChunks (NotAnArray # cs) st = mergeChunks cs st"
| "mergeChunks (QuizArray qs # cs) st =
     (case mergeQuestions qs st of
        Inl e \<Rightarrow> Inl e
      | Inr st' \<Rightarrow> mergeChunks cs st')"

definition mergeChunkQuizzes :: "chunk_quiz list \<Rightarrow> error + quiz_question list" where
  "mergeChunkQuizzes chunkQuizzes =
     (case mergeChunks chunkQuizzes ([], {}, 1) of
        Inl e \<Rightarrow> Inl e
      | Inr (allQuestions, seenQuestions, nextId) \<Rightarrow> Inr allQuestions)"

section \<open>The server: generateQuizFromChunk and generateQuiz\<close>

subsection \<open>Option cleaning\<close>

text \<open>
  \<open>opt.replace(/^[A-D][\)\.:\-\s]+/i, '').trim()\<close>. The pattern is anchored at the start
  of the string: one letter of A to D in either case, then one or more characters of the
  class (closing parenthesis, full stop, colon, hyphen, white space), as many as there are.
\<close>

definition isLabelLetter :: "char \<Rightarrow> bool" where
  "isLabelLetter c = (c \<in> set ''ABCDabcd'')"

definition isLabelTail :: "char \<Rightarrow> bool" where
  "isLabelTail c = (c \<in> set '').:-'' \<or> isSpace c)"

fun stripLabel :: "string \<Rightarrow> string" where
  "stripLabel (c # d # cs) =
     (if isLabelLetter c \<and> isLabelTail d then dropWhile isLabelTail cs else c # d # cs)"
| "stripLabel s = s"

definition cleanOption :: "string \<Rightarrow> string" where
  "cleanOption opt = trim (stripLabel opt)"

subsection \<open>Parsing the model's text\<close>

text \<open>
  \<open>text.match(/\[.*\]/s)\<close>: the match starts at the first opening bracket and, the star
  being greedy and the dot matching every character, ends at the last closing bracket of
  the text; there is no match when no closing bracket follows the first opening one.
\<close>

definition jsonMatch :: "string \<Rightarrow> string option" where
  "jsonMatch text =
     (case dropWhile (\<lambda>c. c \<noteq> CHR ''['') text of
        [] \<Rightarrow> None
      | b # body \<Rightarrow>
          if CHR '']'' \<in> set body
          then Some (b # rev (dropWhile (\<lambda>c. c \<noteq> CHR '']'') (rev body)))
          else None)"

text \<open>
  \<open>JSON.parse\<close> is the runtime's: a parameter \<open>parse\<close>, with \<open>None\<close> where it throws a
  SyntaxError. The strict parse first, then the parse of the bracketed substring; with no
  such substring \<open>quizData\<close> stays the empty array.
\<close>

definition parseQuizData :: "(string \<Rightarrow> jsval option) \<Rightarrow> string \<Rightarrow> error + jsval" where
  "parseQuizData parse text =
     (case parse text of
        Some v \<Rightarrow> Inr v
      | None \<Rightarrow>
          (case jsonMatch text of
             None \<Rightarrow> Inr (JArr [])
           | Some m \<Rightarrow> (case parse m of Some v \<Rightarrow> Inr v | None \<Rightarrow> Inl SyntaxError)))"

subsection \<open>Normalization\<close>

text \<open>\<open>xs.map(f)\<close> for an \<open>f\<close> that may throw: the first exception ends the map.\<close>

fun mapE :: "('a \<Rightarrow> error + 'b) \<Rightarrow> 'a list \<Rightarrow> error + 'b list" where
  "mapE f [] = Inr []"
| "mapE f (x # xs) =
     (case f x of
        Inl e \<Rightarrow> Inl e
      | Inr y \<Rightarrow> (case mapE f xs of Inl e \<Rightarrow> Inl e | Inr ys \<Rightarrow> Inr (y # ys)))"

text \<open>\<open>opt.replace(...)\<close> exists for a string only.\<close>

fun cleanOpt :: "jsval \<Rightarrow> error + string" where
  "cleanOpt (JStr s) = Inr (cleanOption s)"
| "cleanOpt v = Inl TypeError"

text \<open>\<open>q.options.map(...)\<close> exists for an array only.\<close>

fun cleanOptions :: "jsval \<Rightarrow> error + string list" where
  "cleanOptions (JArr opts) = mapE cleanOpt opts"
| "cleanOptions v = Inl TypeError"

text \<open>The callback of \<open>quizData.map((q, idx) => ...)\<close>.\<close>

definition normalizeQuestion :: "jsval \<Rightarrow> nat \<Rightarrow> error + quiz_question" where
  "normalizeQuestion q idx =
     (case getProp q ''correct_answer'' of
        Inl e \<Rightarrow> Inl e
      | Inr ca \<Rightarrow>
     (case getProp q ''correctAnswer'' of
        Inl e \<Rightarrow> Inl e
      | Inr ca' \<Rightarrow>
     (case getProp q ''options'' of
        Inl e \<Rightarrow> Inl e
      | Inr opts \<Rightarrow>
     (case cleanOptions opts of
        Inl e \<Rightarrow> Inl e
      | Inr cleaned \<Rightarrow>
     (case getProp q ''question'' of
        Inl e \<Rightarrow> Inl e
      | Inr qtext \<Rightarrow>
     (case getProp q ''topic'' of
        Inl e \<Rightarrow> Inl e
      | Inr tp \<Rightarrow>
          Inr \<lparr> questionId = int idx + 1,
                question = qtext,
                options = cleaned,
                correct_answer = jsOr ca ca',
                topic = jsOr tp (JStr ''General'') \<rparr>))))))"

fun normalizeFrom :: "nat \<Rightarrow> jsval list \<Rightarrow> error + quiz_question list" where
  "normalizeFrom idx [] = Inr []"
| "normalizeFrom idx (q # qs) =
     (case normalizeQuestion q idx of
        Inl e \<Rightarrow> Inl e
      | Inr x \<Rightarrow>
          (case normalizeFrom (Suc idx) qs of Inl e \<Rightarrow> Inl e | Inr xs \<Rightarrow> Inr (x # xs)))"

text \<open>\<open>quizData.map(...)\<close> exists for an array only.\<close>

fun normalizeQuizData :: "jsval \<Rightarrow> error + quiz_question list" where
  "normalizeQuizData (JArr qs) = normalizeFrom 0 qs"
| "normalizeQuizData v = Inl TypeError"

subsection \<open>generateQuizFromChunk\<close>

text \<open>
  The prompt is a fixed template around these values; the model is asked with the prompt
  and answers with a text, or the call throws (\<open>None\<close>).
\<close>

record prompt =
  p_title :: string
  p_section :: int
  p_content :: string
  p_count :: int
  p_complexity :: string
  p_scope :: string

definition complexityOf :: "string \<Rightarrow> string" where
  "complexityOf difficulty =
     (if difficulty = ''easy'' then ''Basic concepts''
      else if difficulty = ''medium'' then ''Moderate complexity''
      else if difficulty = ''hard'' then ''Advanced topics''
      else ''Moderate complexity'')"

definition scopeOf :: "string \<Rightarrow> string" where
  "scopeOf difficulty =
     (if difficulty = ''easy'' then ''simple straightforward questions''
      else if difficulty = ''medium'' then ''a mix of conceptual and application questions''
      else if difficulty = ''hard'' then ''challenging questions requiring full understanding''
      else ''a mix of conceptual and application questions'')"

definition buildPrompt :: "string \<Rightarrow> int \<Rightarrow> string \<Rightarrow> string \<Rightarrow> int \<Rightarrow> prompt" where
  "buildPrompt chunkText numQuestions difficulty videoTitle chunkIndex =
     \<lparr> p_title = videoTitle,
       p_section = chunkIndex + 1,
       p_content = chunkText,
       p_count = numQuestions,
       p_complexity = complexityOf difficulty,
       p_scope = scopeOf difficulty \<rparr>"

text \<open>The body of the \<open>try\<close> block.\<close>

definition chunkBody ::
  "(prompt \<Rightarrow> string option) \<Rightarrow> (string \<Rightarrow> jsval option) \<Rightarrow> prompt \<Rightarrow> error + quiz_question list"
where
  "chunkBody generateContent parse p =
     (case generateContent p of
        None \<Rightarrow> Inl CallFailed
      | Some text \<Rightarrow>
          (case parseQuizData parse text of
             Inl e \<Rightarrow> Inl e
           | Inr quizData \<Rightarrow> normalizeQuizData quizData))"

text \<open>
  The \<open>catch\<close> turns every exception of the body into the empty array. What precedes
  the \<open>try\<close> (taking the model handle, building the prompt) does not throw.
\<close>

definition generateQuizFromChunk ::
  "(prompt \<Rightarrow> string option) \<Rightarrow> (string \<Rightarrow> jsval option) \<Rightarrow>
   string \<Rightarrow> int \<Rightarrow> string \<Rightarrow> string \<Rightarrow> int \<Rightarrow> quiz_question list"
where
  "generateQuizFromChunk generateContent parse chunkText numQuestions difficulty videoTitle chunkIndex =
     (case chunkBody generateContent parse
             (buildPrompt chunkText numQuestions difficulty videoTitle chunkIndex) of
        Inl e \<Rightarrow> []
      | Inr quizData \<Rightarrow> quizData)"

subsection \<open>generateQuiz\<close>

record video_info =
  vi_id :: string
  vi_title :: string
  vi_description :: string
  vi_channelTitle :: string
  vi_publishedAt :: int
  vi_duration :: string
  vi_durationMinutes :: int
  vi_transcript :: string
  vi_fromCache :: bool

text \<open>
  \<open>mergedQuiz.slice(0, numQuestions)\<close>: a negative end counts from the end of the array.
\<close>

definition sliceTo :: "int \<Rightarrow> 'a list \<Rightarrow> 'a list" where
  "sliceTo n xs = (if 0 \<le> n then take (nat n) xs else take (nat (int (length xs) + n)) xs)"

text \<open>The end of \<open>generateQuiz\<close>: merge, then trim to the target.\<close>

definition mergeAndTrim :: "chunk_quiz list \<Rightarrow> int \<Rightarrow> error + quiz_question list" where
  "mergeAndTrim chunkQuizzes numQuestions =
     (case mergeChunkQuizzes chunkQuizzes of
        Inl e \<Rightarrow> Inl e
      | Inr mergedQuiz \<Rightarrow>
          if int (length mergedQuiz) > numQuestions
          then Inr (sliceTo numQuestions mergedQuiz)
          else Inr mergedQuiz)"

text \<open>
  \<open>chunks.map((chunk, index) => generateQuizFromChunk(chunk, questionsPerChunk[index], ...))\<close>
  followed by \<open>Promise.all\<close>: one result per chunk, in the order of the chunks. The quota
  list has one entry per chunk (lemma \<open>length_distribute\<close>), so \<open>questionsPerChunk[index]\<close>
  is always in range.
\<close>

definition generateChunkQuizzes ::
  "(prompt \<Rightarrow> string option) \<Rightarrow> (string \<Rightarrow> jsval option) \<Rightarrow>
   string list \<Rightarrow> int list \<Rightarrow> string \<Rightarrow> string \<Rightarrow> quiz_question list list"
where
  "generateChunkQuizzes generateContent parse chunks questionsPerChunk difficulty videoTitle =
     map (\<lambda>index. generateQuizFromChunk generateContent parse (chunks ! index)
                    (questionsPerChunk ! index) difficulty videoTitle (int index))
         [0..<length chunks]"

definition generateQuiz ::
  "(prompt \<Rightarrow> string option) \<Rightarrow> (string \<Rightarrow> jsval option) \<Rightarrow>
   video_info \<Rightarrow> int \<Rightarrow> string \<Rightarrow> error + quiz_question list"
where
  "generateQuiz generateContent parse videoInfo numQuestions difficulty =
     (let transcriptLength = length (vi_transcript videoInfo);
          optimalChunks = calculateOptimalChunks transcriptLength;
          useChunking = (optimalChunks > 1)
      in if \<not> useChunking
         then Inr (generateQuizFromChunk generateContent parse (vi_transcript videoInfo)
                     numQuestions difficulty (vi_title videoInfo) 0)
         else
           (let chunks = splitTranscriptIntoChunks (Some (vi_transcript videoInfo)) optimalChunks;
                questionsPerChunk =
                  distributeQuestionsAcrossChunks numQuestions (int (length chunks));
                chunkQuizzes =
                  generateChunkQuizzes generateContent parse chunks questionsPerChunk
                    difficulty (vi_title videoInfo)
            in mergeAndTrim (map QuizArray chunkQuizzes) numQuestions))"

section \<open>The transcript cache\<close>

text \<open>
  A document of the \<open>TranscriptCache\<close> collection. The collection has a unique index on
  \<open>videoId\<close>: it is a map from the video id to the document. Dates are instants of the
  clock.
\<close>

record transcript_cache =
  videoId :: string
  title :: string
  description :: string
  channelTitle :: string
  duration :: string
  durationMinutes :: int
  transcript :: string
  transcriptLength :: int
  publishedAt :: int
  cachedAt :: int
  lastAccessed :: int
  accessCount :: int

type_synonym cache_db = "string \<rightharpoonup> transcript_cache"

text \<open>
  \<open>updateAccess\<close>: \<open>now\<close> is the value of \<open>new Date()\<close>; \<open>this.save()\<close> writes the
  document back to the collection.
\<close>

definition updateAccess :: "int \<Rightarrow> cache_db \<Rightarrow> string \<Rightarrow> transcript_cache \<Rightarrow> cache_db" where
  "updateAccess now db key doc =
     db(key \<mapsto> doc\<lparr>lastAccessed := now, accessCount := accessCount doc + 1\<rparr>)"

text \<open>
  The cache lookup at the head of \<open>getVideoInfo\<close>: on a hit the access statistics are
  updated and the cached fields returned; on a miss nothing is returned here and the
  caller goes on to fetch the video.
\<close>

definition cacheLookup :: "int \<Rightarrow> cache_db \<Rightarrow> string \<Rightarrow> video_info option \<times> cache_db" where
  "cacheLookup now db vid =
     (case db vid of
        Some cachedVideo \<Rightarrow>
          (Some \<lparr> vi_id = videoId cachedVideo,
                  vi_title = title cachedVideo,
                  vi_description = description cachedVideo,
                  vi_channelTitle = channelTitle cachedVideo,
                  vi_publishedAt = publishedAt cachedVideo,
                  vi_duration = duration cachedVideo,
                  vi_durationMinutes = durationMinutes cachedVideo,
                  vi_transcript = transcript cachedVideo,
                  vi_fromCache = True \<rparr>,
           updateAccess now db vid cachedVideo)
      | None \<Rightarrow> (None, db))"

section \<open>Notions used in the statements\<close>

text \<open>
  The key of the duplicate detection: the question text in lower case, trimmed. It is
  only read where the text is a string (\<open>hasText\<close>).
\<close>

definition hasText :: "quiz_question \<Rightarrow> bool" where
  "hasText q = (case question q of JStr s \<Rightarrow> True | _ \<Rightarrow> False)"

definition normalizedText :: "quiz_question \<Rightarrow> string" where
  "normalizedText q = (case question q of JStr s \<Rightarrow> trim (toLowerCase s) | _ \<Rightarrow> [])"

text \<open>
  All questions of the input in the order the two loops visit them: chunk after chunk,
  each chunk from its first question to its last.
\<close>

fun inputQuestions :: "chunk_quiz list \<Rightarrow> quiz_question list" where
  "inputQuestions [] = []"
| "inputQuestions (NotAnArray # cs) = inputQuestions cs"
| "inputQuestions (QuizArray qs # cs) = qs @ inputQuestions cs"

text \<open>
  The questions whose key is neither in \<open>seen\<close> nor carried by an earlier question of the
  list, and the numbering of a list from \<open>i\<close> on: the two parts of what the loops compute.
\<close>

fun firstSeen :: "string set \<Rightarrow> quiz_question list \<Rightarrow> quiz_question list" where
  "firstSeen seen [] = []"
| "firstSeen seen (q # qs) =
     (if normalizedText q \<in> seen then firstSeen seen qs
      else q # firstSeen (insert (normalizedText q) seen) qs)"

fun renumberFrom :: "int \<Rightarrow> quiz_question list \<Rightarrow> quiz_question list" where
  "renumberFrom i [] = []"
| "renumberFrom i (q # qs) = q\<lparr>questionId := i\<rparr> # renumberFrom (i + 1) qs"

section \<open>Sample inputs\<close>

text \<open>
  A model answer holding two questions, and the value \<open>JSON.parse\<close> returns for it. The
  first question uses the spelling \<open>correctAnswer\<close>, a labelled option and no topic.
  \<open>sampleParse\<close> stands for \<open>JSON.parse\<close> on this text and on texts that are not JSON,
  for which it throws.
\<close>

definition sampleText :: string where
  \<open>sampleText = ''[{"question":"Q1","options":["A) x","b","c","d"],"correctAnswer":"A"},{"question":"Q2","options":["a","b","c","d"],"correct_answer":"B","topic":"T"}]''\<close>

definition sampleParsed :: jsval where
  "sampleParsed = JArr
     [JObj [(''question'', JStr ''Q1''),
            (''options'', JArr [JStr ''A) x'', JStr ''b'', JStr ''c'', JStr ''d'']),
            (''correctAnswer'', JStr ''A'')],
      JObj [(''question'', JStr ''Q2''),
            (''options'', JArr [JStr ''a'', JStr ''b'', JStr ''c'', JStr ''d'']),
            (''correct_answer'', JStr ''B''),
            (''topic'', JStr ''T'')]]"

definition sampleParse :: "string \<Rightarrow> jsval option" where
  "sampleParse s = (if s = sampleText then Some sampleParsed else None)"

definition sampleModel :: "prompt \<Rightarrow> string option" where
  "sampleModel p = Some sampleText"

text \<open>The two questions \<open>generateQuizFromChunk\<close> makes of that answer.\<close>

definition sampleQ1 :: quiz_question where
  "sampleQ1 = \<lparr> questionId = 1, question = JStr ''Q1'', options = [''x'', ''b'', ''c'', ''d''],
                correct_answer = JStr ''A'', topic = JStr ''General'' \<rparr>"

definition sampleQ2 :: quiz_question where
  "sampleQ2 = \<lparr> questionId = 2, question = JStr ''Q2'', options = [''a'', ''b'', ''c'', ''d''],
                correct_answer = JStr ''B'', topic = JStr ''T'' \<rparr>"

text \<open>
  Chunk results in which the last question of the second chunk repeats the first question
  of the first chunk, up to case and surrounding white space.
\<close>

definition sampleQuestion :: "int \<Rightarrow> string \<Rightarrow> string \<Rightarrow> quiz_question" where
  "sampleQuestion i t a =
     \<lparr> questionId = i, question = JStr t, options = [''w'', ''x'', ''y'', ''z''],
       correct_answer = JStr a, topic = JStr ''Basics'' \<rparr>"

definition sampleChunkQuizzes :: "chunk_quiz list" where
  "sampleChunkQuizzes =
     [QuizArray [sampleQuestion 1 ''What is a variable?'' ''A'', sampleQuestion 2 ''What is a loop?'' ''B''],
      NotAnArray,
      QuizArray [sampleQuestion 1 ''What is a type?'' ''C'',
                 sampleQuestion 2 ''  what is a VARIABLE? '' ''D'']]"

text \<open>
  A video with a short transcript, and one whose transcript has 5000 characters: 4999
  spaces and a letter.
\<close>

definition shortVideo :: video_info where
  "shortVideo = \<lparr> vi_id = ''v1'', vi_title = ''Intro lecture'', vi_description = ''a tutorial'',
      vi_channelTitle = ''ch'', vi_publishedAt = 0, vi_duration = ''PT5M'',
      vi_durationMinutes = 5, vi_transcript = ''a short transcript'', vi_fromCache = False \<rparr>"

definition longVideo :: video_info where
  "longVideo = shortVideo \<lparr> vi_transcript := replicate 4999 (CHR '' '') @ ''a'' \<rparr>"

text \<open>A cache holding one document.\<close>

definition sampleDoc :: transcript_cache where
  "sampleDoc = \<lparr> videoId = ''v1'', title = ''Intro lecture'', description = ''a tutorial'',
      channelTitle = ''ch'', duration = ''PT5M'', durationMinutes = 5,
      transcript = ''a short transcript'', transcriptLength = 18, publishedAt = 0,
      cachedAt = 100, lastAccessed = 100, accessCount = 1 \<rparr>"

definition sampleDb :: cache_db where
  "sampleDb = Map.empty(''v1'' \<mapsto> sampleDoc)"

section \<open>Quota distribution\<close>

subsection \<open>Rounding is exact on integers below \<open>2^53\<close>\<close>

lemma roundHalfEven_ge: "of_int m \<le> y \<Longrightarrow> m \<le> roundHalfEven y"
proof -
  assume "of_int m \<le> y"
  then have "m \<le> \<lfloor>y\<rfloor>" by (simp add: le_floor_iff)
  moreover have "\<lfloor>y\<rfloor> \<le> roundHalfEven y" by (simp add: roundHalfEven_def Let_def)
  ultimately show ?thesis by linarith
qed

lemma roundHalfEven_less: "y < of_int M - 1 / 2 \<Longrightarrow> roundHalfEven y < M"
proof -
  assume a: "y < of_int M - 1 / 2"
  have f: "of_int \<lfloor>y\<rfloor> \<le> y" by simp
  with a have "of_int \<lfloor>y\<rfloor> < (of_int M :: rat)" by linarith
  then have le: "\<lfloor>y\<rfloor> \<le> M - 1" by simp
  show ?thesis
  proof (cases "\<lfloor>y\<rfloor> = M - 1")
    case True
    with a have "y - of_int \<lfloor>y\<rfloor> < 1 / 2" by simp
    then show ?thesis using True by (simp add: roundHalfEven_def Let_def)
  next
    case False
    with le have "\<lfloor>y\<rfloor> + 1 < M" by simp
    then show ?thesis by (auto simp: roundHalfEven_def Let_def)
  qed
qed

lemma bitlen_pos: "0 < m \<Longrightarrow> 1 \<le> bitlen m"
  using bitlen_nonneg [of m] bitlen_eq_zero_iff [of m] by linarith

lemma pow_le_rat:
  assumes "0 < m"
  shows "(2 :: rat) ^ nat (bitlen m - 1) \<le> of_int m"
proof -
  from bitlen_bounds [OF assms] have "2 ^ nat (bitlen m - 1) \<le> m" by blast
  then have "(of_int (2 ^ nat (bitlen m - 1)) :: rat) \<le> of_int m"
    by (simp only: of_int_le_iff)
  then show ?thesis by simp
qed

lemma less_pow_rat:
  assumes "0 < m"
  shows "(of_int m :: rat) + 1 \<le> 2 ^ nat (bitlen m)"
proof -
  from bitlen_bounds [OF assms] have "m + 1 \<le> 2 ^ nat (bitlen m)" by simp
  then have "(of_int (m + 1) :: rat) \<le> of_int (2 ^ nat (bitlen m))"
    by (simp only: of_int_le_iff)
  then show ?thesis by simp
qed

lemma binade_ge1:
  assumes "1 \<le> x"
  shows "2 powi (binade x) \<le> x"
proof -
  from assms have pos: "0 < \<lfloor>x\<rfloor>" by simp
  from bitlen_pos [OF pos] have e: "0 \<le> bitlen \<lfloor>x\<rfloor> - 1" by simp
  have "(2 :: rat) ^ nat (bitlen \<lfloor>x\<rfloor> - 1) \<le> of_int \<lfloor>x\<rfloor>" by (rule pow_le_rat [OF pos])
  also have "\<dots> \<le> x" by simp
  finally have "(2 :: rat) ^ nat (bitlen \<lfloor>x\<rfloor> - 1) \<le> x" .
  moreover have "binade x = bitlen \<lfloor>x\<rfloor> - 1" using assms by (simp add: binade_def)
  ultimately show ?thesis using e by (simp only: power_int_nonneg_exp)
qed

lemma binade_lt1:
  assumes "0 < x" "x < 1"
  shows "2 powi (binade x) \<le> x"
proof -
  from assms have inv: "1 < 1 / x" by simp
  then have pos: "0 < \<lfloor>1 / x\<rfloor>" by simp
  define j where "j = bitlen \<lfloor>1 / x\<rfloor> - 1"
  from bitlen_pos [OF pos] have j0: "0 \<le> j" by (simp add: j_def)
  have bd: "binade x = (if x = 2 powi (- j) then - j else - j - 1)"
    using assms by (simp add: binade_def j_def Let_def)
  show ?thesis
  proof (cases "x = 2 powi (- j)")
    case True
    with bd show ?thesis by simp
  next
    case False
    have n: "nat (bitlen \<lfloor>1 / x\<rfloor>) = nat (j + 1)" by (simp add: j_def)
    have "1 / x < of_int \<lfloor>1 / x\<rfloor> + 1" by linarith
    also have "\<dots> \<le> 2 ^ nat (j + 1)" using less_pow_rat [OF pos] by (simp only: n)
    finally have "1 / x < 2 ^ nat (j + 1)" .
    with assms have lt: "1 / 2 ^ nat (j + 1) < x" by (simp add: field_simps)
    have "(2 :: rat) powi (- (j + 1)) = 1 / (2 powi (j + 1))" by (rule power_int_minus_divide)
    also have "\<dots> = 1 / 2 ^ nat (j + 1)" using j0 by (simp only: power_int_nonneg_exp)
    finally have "(2 :: rat) powi (- (j + 1)) \<le> x" using lt by simp
    moreover from bd False have "binade x = - (j + 1)" by simp
    ultimately show ?thesis by simp
  qed
qed

lemma binade_le: "0 < x \<Longrightarrow> 2 powi (binade x) \<le> x"
  using binade_ge1 [of x] binade_lt1 [of x] by (cases "1 \<le> x") auto

text \<open>
  The heart of the matter: the quotient of \<open>a < 2^53\<close> by \<open>b\<close> lies at least \<open>1 / b\<close> below
  the next integer, which is more than half a unit in the last place, so rounding never
  reaches that integer.
\<close>

lemma round_quotient_core:
  assumes a: "0 < a" "a < 2 ^ 53" and b: "1 \<le> b"
    and lo: "(2 :: rat) ^ 52 / 2 ^ j \<le> of_int a / of_int b"
  shows "\<lfloor>of_int (roundHalfEven (of_int a / of_int b * 2 ^ j)) * (1 / 2 ^ j :: rat)\<rfloor>
         = a div b"
proof -
  define x :: rat where "x = of_int a / of_int b"
  define k where "k = a div b"
  define P :: rat where "P = 2 ^ j"
  have P: "0 < P" by (simp add: P_def)
  from b have bpos: "(0 :: rat) < of_int b" by simp
  have fl: "\<lfloor>x\<rfloor> = k" by (simp add: x_def k_def floor_divide_of_int_eq)
  then have kx: "of_int k \<le> x" using of_int_floor_le [of x] by simp
  have "a = b * k + a mod b" by (simp add: k_def)
  moreover from b have "a mod b \<le> b - 1" using pos_mod_bound [of b a] by simp
  ultimately have "a \<le> b * k + (b - 1)" by linarith
  then have "(of_int a :: rat) \<le> of_int (b * k + (b - 1))" by (simp only: of_int_le_iff)
  then have "(of_int a :: rat) \<le> of_int b * (of_int k + 1) - 1" by (simp add: algebra_simps)
  with bpos have xu: "x \<le> of_int k + 1 - 1 / of_int b"
    by (simp add: x_def field_simps)
  from lo have "(2 :: rat) ^ 52 * of_int b \<le> of_int a * P"
    using bpos P by (simp add: P_def field_simps)
  moreover from a have "(of_int a :: rat) < 2 ^ 53"
    by (metis of_int_less_iff of_int_numeral of_int_power)
  then have "(of_int a :: rat) * P < 2 ^ 53 * P" using P by simp
  ultimately have "(2 :: rat) ^ 52 * of_int b < 2 ^ 53 * P" by linarith
  then have bP: "(of_int b :: rat) < 2 * P" by simp
  then have half: "1 / 2 < P / of_int b" using bpos by (simp add: field_simps)
  from xu have "x * P \<le> (of_int k + 1 - 1 / of_int b) * P" using P by simp
  also have "\<dots> = (of_int k + 1) * P - P / of_int b" by (simp add: algebra_simps)
  also have "\<dots> < (of_int k + 1) * P - 1 / 2" using half by simp
  finally have "x * P < of_int ((k + 1) * 2 ^ j) - 1 / 2" by (simp add: P_def)
  then have up: "roundHalfEven (x * P) < (k + 1) * 2 ^ j" by (rule roundHalfEven_less)
  from kx have "of_int k * P \<le> x * P" using P by simp
  then have "of_int (k * 2 ^ j) \<le> x * P" by (simp add: P_def)
  then have lw: "k * 2 ^ j \<le> roundHalfEven (x * P)" by (rule roundHalfEven_ge)
  define R where "R = roundHalfEven (x * P)"
  from lw have "(of_int (k * 2 ^ j) :: rat) \<le> of_int R"
    unfolding R_def by (simp only: of_int_le_iff)
  then have 1: "of_int k \<le> of_int R * (1 / P)" using P by (simp add: P_def field_simps)
  from up have "(of_int R :: rat) < of_int ((k + 1) * 2 ^ j)"
    unfolding R_def by (simp only: of_int_less_iff)
  then have 2: "of_int R * (1 / P) < of_int k + 1" using P by (simp add: P_def field_simps)
  from 1 2 have "\<lfloor>of_int R * (1 / P)\<rfloor> = k" by (intro floor_unique) auto
  then show ?thesis by (simp add: R_def x_def P_def k_def)
qed

lemma floor_divide_exact:
  assumes "0 \<le> a" "a < 2 ^ 53" "1 \<le> b"
  shows "Math_floor (jsDivide a b) = a div b"
proof (cases "a = 0")
  case True
  then show ?thesis by (simp add: Math_floor_def jsDivide_def roundDouble_def)
next
  case False
  with assms have apos: "0 < a" by simp
  define x :: rat where "x = of_int a / of_int b"
  from assms apos have xpos: "0 < x" by (simp add: x_def)
  from assms have "(of_int b :: rat) \<ge> 1" by simp
  with apos have "x \<le> of_int a" by (simp add: x_def field_simps mult_le_cancel_left1)
  also from assms have "(of_int a :: rat) < 2 ^ 53"
    by (metis of_int_less_iff of_int_numeral of_int_power)
  finally have xlt: "x < 2 ^ 53" .
  define e where "e = binade x"
  from binade_le [OF xpos] have le: "2 powi e \<le> x" by (simp add: e_def)
  with xlt have "(2 :: rat) powi e < 2 powi 53" by simp
  then have e53: "e < 53" by (intro power_int_le_imp_less_exp [of "2 :: rat"]) auto
  define j where "j = nat (52 - e)"
  from e53 have ej: "e = 52 - int j" by (simp add: j_def)
  have ulp: "(2 :: rat) powi (e - 52) = 1 / 2 ^ j"
    using power_int_minus_divide [of "2 :: rat" "int j"] by (simp add: ej)
  have pe: "(2 :: rat) powi e = 2 ^ 52 / 2 ^ j"
    using power_int_diff [of "2 :: rat" 52 "int j"] by (simp add: ej)
  from le pe have lo: "(2 :: rat) ^ 52 / 2 ^ j \<le> of_int a / of_int b" by (simp add: x_def)
  have "roundDouble x = of_int (roundHalfEven (x * 2 ^ j)) * (1 / 2 ^ j)"
    using xpos ulp by (simp add: roundDouble_def Let_def e_def)
  then show ?thesis
    using round_quotient_core [OF apos assms(2) assms(3) lo]
    by (simp add: Math_floor_def jsDivide_def x_def)
qed

lemma jsAdd_exact:
  assumes "0 \<le> a + b" "a + b < 2 ^ 53"
  shows "jsAdd a b = a + b"
  using floor_divide_exact [of "a + b" 1] assms
  by (simp add: jsAdd_def Math_floor_def jsDivide_def)

subsection \<open>The quotas\<close>

lemma jsRem_nonneg: "0 \<le> a \<Longrightarrow> 0 < b \<Longrightarrow> jsRem a b = a mod b"
  by (cases "a = 0") (simp_all add: jsRem_def)

lemma sum_extra: "0 \<le> r \<Longrightarrow>
  sum_list (map (\<lambda>i. b + (if int i < r then 1 else 0)) [0..<m]) = int m * b + min r (int m)"
  by (induction m) (auto simp: algebra_simps min_def)

lemma quotient_le:
  assumes "0 \<le> (totalQ :: int)" "1 \<le> n"
  shows "totalQ div n \<le> totalQ"
proof -
  have q: "0 \<le> totalQ div n" using assms by (simp add: pos_imp_zdiv_nonneg_iff)
  with assms(2) have "1 * (totalQ div n) \<le> n * (totalQ div n)"
    by (intro mult_right_mono) auto
  moreover have "totalQ = n * (totalQ div n) + totalQ mod n" by simp
  moreover have "0 \<le> totalQ mod n" using assms by simp
  ultimately show ?thesis by linarith
qed

lemma quotient_plus_one:
  assumes "0 \<le> (totalQ :: int)" "1 \<le> n" "0 < totalQ mod n"
  shows "totalQ div n + 1 \<le> totalQ"
proof -
  have n2: "2 \<le> n"
  proof (rule ccontr)
    assume "\<not> 2 \<le> n"
    with assms(2) have "n = 1" by simp
    with assms(3) show False by simp
  qed
  have q: "0 \<le> totalQ div n" using assms by (simp add: pos_imp_zdiv_nonneg_iff)
  with n2 have "2 * (totalQ div n) \<le> n * (totalQ div n)" by (intro mult_right_mono) auto
  moreover have "totalQ = n * (totalQ div n) + totalQ mod n" by simp
  ultimately show ?thesis using assms(3) q by linarith
qed

text \<open>Below \<open>2^53\<close> the quotas are those of exact integer arithmetic.\<close>

lemma distribute_exact:
  assumes "0 \<le> totalQ" "totalQ < 2 ^ 53" "1 \<le> n"
  shows "distributeQuestionsAcrossChunks totalQ n
         = map (\<lambda>i. totalQ div n + (if int i < totalQ mod n then 1 else 0)) [0..<nat n]"
proof -
  have base: "Math_floor (jsDivide totalQ n) = totalQ div n"
    by (rule floor_divide_exact [OF assms])
  have rem: "jsRem totalQ n = totalQ mod n" using assms by (simp add: jsRem_nonneg)
  have q: "0 \<le> totalQ div n" using assms by (simp add: pos_imp_zdiv_nonneg_iff)
  have le: "totalQ div n \<le> totalQ" by (rule quotient_le [OF assms(1) assms(3)])
  have add: "jsAdd (totalQ div n) (if int i < totalQ mod n then 1 else 0)
             = totalQ div n + (if int i < totalQ mod n then 1 else 0)" for i
  proof (cases "int i < totalQ mod n")
    case True
    then have "0 < totalQ mod n" by linarith
    from quotient_plus_one [OF assms(1) assms(3) this] assms(2) q
    have "0 \<le> totalQ div n + 1" "totalQ div n + 1 < 2 ^ 53" by linarith+
    then show ?thesis using True by (simp add: jsAdd_exact)
  next
    case False
    from q le assms(2) have "0 \<le> totalQ div n + 0" "totalQ div n + 0 < 2 ^ 53" by linarith+
    then show ?thesis using False jsAdd_exact [of "totalQ div n" 0] by simp
  qed
  show ?thesis
    by (simp add: distributeQuestionsAcrossChunks_def Let_def base rem add)
qed

lemma distribute_nth:
  assumes "0 \<le> totalQ" "totalQ < 2 ^ 53" "1 \<le> n" "i < nat n"
  shows "distributeQuestionsAcrossChunks totalQ n ! i
         = totalQ div n + (if int i < totalQ mod n then 1 else 0)"
  using assms by (simp add: distribute_exact)

lemma distribute_set:
  assumes "0 \<le> totalQ" "totalQ < 2 ^ 53" "1 \<le> n"
    and "q \<in> set (distributeQuestionsAcrossChunks totalQ n)"
  shows "q = totalQ div n \<or> q = totalQ div n + 1"
  using assms by (auto simp: distribute_exact)

lemma distribute_sum:
  assumes "0 \<le> totalQ" "totalQ < 2 ^ 53" "1 \<le> n"
  shows "sum_list (distributeQuestionsAcrossChunks totalQ n) = totalQ"
proof -
  have r: "0 \<le> totalQ mod n" "totalQ mod n < n" using assms by simp_all
  have "sum_list (distributeQuestionsAcrossChunks totalQ n)
        = int (nat n) * (totalQ div n) + min (totalQ mod n) (int (nat n))"
    using r by (simp add: distribute_exact [OF assms] sum_extra)
  also have "\<dots> = n * (totalQ div n) + totalQ mod n" using assms r by (simp add: min_def)
  also have "\<dots> = totalQ" by simp
  finally show ?thesis .
qed

lemma length_distribute: "length (distributeQuestionsAcrossChunks totalQ n) = nat n"
  by (simp add: distributeQuestionsAcrossChunks_def Let_def)

text \<open>
  Claim C3, as stated, fails. The requested total 18014398509481988 (that is
  \<open>2^54 + 4\<close>, an integer a double holds) and the chunk count 3 are within the claim, but
  the quotient 6004799503160662.66... is rounded to the double 6004799503160663 before
  \<open>Math.floor\<close> sees it, and with the remainder 2 the quotas sum to three more than the
  requested total.
\<close>

theorem distribute_large_counterexample:
  "(0 :: int) \<le> 18014398509481988 \<and> (1 :: int) \<le> 3
   \<and> distributeQuestionsAcrossChunks 18014398509481988 3
       = [6004799503160664, 6004799503160664, 6004799503160663]
   \<and> sum_list (distributeQuestionsAcrossChunks 18014398509481988 3) = 18014398509481991
   \<and> sum_list (distributeQuestionsAcrossChunks 18014398509481988 3) \<noteq> 18014398509481988"
  by code_simp

text \<open>
  Claim C3, amended. For a requested total \<open>totalQ\<close> with \<open>0 \<le> totalQ < 2^53\<close> and a
  chunk count \<open>n \<ge> 1\<close>, \<open>distributeQuestionsAcrossChunks\<close> returns exactly \<open>n\<close> quotas,
  none negative, whose sum is \<open>totalQ\<close>; any two quotas differ by at most 1; the quota of
  chunk \<open>i\<close> is the floor of \<open>totalQ / n\<close>, plus one exactly for the first \<open>totalQ mod n\<close>
  chunks; and a total of zero gives quotas that are all zero.
\<close>

theorem distribute_quotas:
  assumes "0 \<le> totalQ" "totalQ < 2 ^ 53" "1 \<le> n"
  shows "length (distributeQuestionsAcrossChunks totalQ n) = nat n
    \<and> (\<forall>q \<in> set (distributeQuestionsAcrossChunks totalQ n). 0 \<le> q)
    \<and> sum_list (distributeQuestionsAcrossChunks totalQ n) = totalQ
    \<and> (\<forall>a \<in> set (distributeQuestionsAcrossChunks totalQ n).
         \<forall>b \<in> set (distributeQuestionsAcrossChunks totalQ n). \<bar>a - b\<bar> \<le> 1)
    \<and> (\<forall>i < nat n. distributeQuestionsAcrossChunks totalQ n ! i
           = totalQ div n + (if int i < totalQ mod n then 1 else 0))
    \<and> (totalQ = 0 \<longrightarrow> distributeQuestionsAcrossChunks totalQ n = replicate (nat n) 0)"
proof (intro conjI)
  show "length (distributeQuestionsAcrossChunks totalQ n) = nat n"
    by (rule length_distribute)
  have d: "0 \<le> totalQ div n" using assms by (simp add: pos_imp_zdiv_nonneg_iff)
  show "\<forall>q \<in> set (distributeQuestionsAcrossChunks totalQ n). 0 \<le> q"
    using distribute_set [OF assms] d by fastforce
  show "sum_list (distributeQuestionsAcrossChunks totalQ n) = totalQ"
    by (rule distribute_sum [OF assms])
  show "\<forall>a \<in> set (distributeQuestionsAcrossChunks totalQ n).
         \<forall>b \<in> set (distributeQuestionsAcrossChunks totalQ n). \<bar>a - b\<bar> \<le> 1"
  proof (intro ballI)
    fix a b
    assume "a \<in> set (distributeQuestionsAcrossChunks totalQ n)"
      and "b \<in> set (distributeQuestionsAcrossChunks totalQ n)"
    then have "a = totalQ div n \<or> a = totalQ div n + 1"
      and "b = totalQ div n \<or> b = totalQ div n + 1"
      using distribute_set [OF assms] by blast+
    then show "\<bar>a - b\<bar> \<le> 1" by auto
  qed
  show "\<forall>i < nat n. distributeQuestionsAcrossChunks totalQ n ! i
           = totalQ div n + (if int i < totalQ mod n then 1 else 0)"
    using distribute_nth [OF assms] by blast
  show "totalQ = 0 \<longrightarrow> distributeQuestionsAcrossChunks totalQ n = replicate (nat n) 0"
    using assms by (auto simp: distribute_exact map_replicate_const)
qed

theorem distribute_quotas_witness:
  "(0::int) \<le> 15 \<and> (15::int) < 2 ^ 53 \<and> (1::int) \<le> 4
   \<and> distributeQuestionsAcrossChunks 15 4 = [4, 4, 4, 3]
   \<and> sum_list (distributeQuestionsAcrossChunks 15 4) = 15"
proof -
  have e: "distributeQuestionsAcrossChunks 15 4 = [4, 4, 4, 3]" by code_simp
  from distribute_quotas [of 15 4] e show ?thesis by simp
qed

section \<open>The sample inputs, evaluated\<close>

lemma splitWs_spaces: "splitWs cur True (replicate k (CHR '' '') @ s) = splitWs cur True s"
  by (induction k) (simp_all add: isSpace_def)

lemma split_ws_leading_spaces:
  "split_ws (replicate (Suc k) (CHR '' '') @ s) = [] # splitWs [] True s"
  by (simp add: split_ws_def splitWs_spaces isSpace_def)

lemma longVideo_chunks:
  "splitTranscriptIntoChunks (Some (vi_transcript longVideo))
     (calculateOptimalChunks (length (vi_transcript longVideo))) = [''a'']"
proof -
  have w: "split_ws (replicate 4999 (CHR '' '') @ ''a'') = [[], ''a'']"
    using split_ws_leading_spaces [of 4998 "''a''"] by (simp add: isSpace_def)
  have t: "trim [] = []" "trim ''a'' = ''a''" by (simp_all add: trim_def isSpace_def)
  show ?thesis
    by (simp add: longVideo_def shortVideo_def splitTranscriptIntoChunks_def
        calculateOptimalChunks_def w t Let_def slice_def upt_rec)
qed

lemma normalizeFrom_length:
  "normalizeFrom idx qs = Inr xs \<Longrightarrow> length xs = length qs"
  by (induction qs arbitrary: idx xs) (auto split: sum.splits)

lemma sample_chunk:
  "generateQuizFromChunk sampleModel sampleParse chunkText quota difficulty videoTitle chunkIndex
   = [sampleQ1, sampleQ2]"
proof -
  have n: "normalizeQuizData sampleParsed = Inr [sampleQ1, sampleQ2]" by code_simp
  show ?thesis
    by (simp add: generateQuizFromChunk_def chunkBody_def sampleModel_def parseQuizData_def
        sampleParse_def n)
qed

lemma sample_merge:
  "mergeChunkQuizzes sampleChunkQuizzes
   = Inr [sampleQuestion 1 ''What is a variable?'' ''A'',
          sampleQuestion 2 ''What is a loop?'' ''B'',
          sampleQuestion 3 ''What is a type?'' ''C'']"
  by code_simp

lemma sample_hasText: "\<forall>q \<in> set (inputQuestions sampleChunkQuizzes). hasText q"
  by (simp add: sampleChunkQuizzes_def sampleQuestion_def hasText_def)

lemma sample_short_quiz:
  "generateQuiz sampleModel sampleParse shortVideo numQuestions ''medium''
   = Inr [sampleQ1, sampleQ2]"
  by (simp add: generateQuiz_def shortVideo_def calculateOptimalChunks_def sample_chunk)

lemma sample_long_quiz:
  "generateQuiz sampleModel sampleParse longVideo numQuestions ''medium''
   = mergeAndTrim [QuizArray [sampleQ1, sampleQ2]] numQuestions"
proof -
  have big: "1 < calculateOptimalChunks (length (vi_transcript longVideo))"
    by (simp add: calculateOptimalChunks_def longVideo_def)
  show ?thesis
    using big
    by (simp add: generateQuiz_def Let_def longVideo_chunks generateChunkQuizzes_def
        sample_chunk)
qed

lemma sample_trim_minus_one:
  "mergeAndTrim [QuizArray [sampleQ1, sampleQ2]] (- 1) = Inr [sampleQ1\<lparr>questionId := 1\<rparr>]"
  by code_simp

lemma sample_trim_one:
  "mergeAndTrim [QuizArray [sampleQ1, sampleQ2]] 1 = Inr [sampleQ1\<lparr>questionId := 1\<rparr>]"
  by code_simp

section \<open>Merging and deduplication\<close>

lemma normalizedText_update [simp]:
  "normalizedText (q\<lparr>questionId := i\<rparr>) = normalizedText q"
  by (simp add: normalizedText_def)

lemma renumberFrom_append:
  "renumberFrom i (xs @ ys) = renumberFrom i xs @ renumberFrom (i + int (length xs)) ys"
  by (induction xs arbitrary: i) (simp_all add: algebra_simps)

lemma length_renumberFrom [simp]: "length (renumberFrom i xs) = length xs"
  by (induction xs arbitrary: i) simp_all

lemma renumberFrom_nth:
  "k < length xs \<Longrightarrow> renumberFrom i xs ! k = (xs ! k)\<lparr>questionId := i + int k\<rparr>"
proof (induction xs arbitrary: i k)
  case Nil
  then show ?case by simp
next
  case (Cons x xs)
  then show ?case by (cases k) (simp_all add: algebra_simps)
qed

lemma take_renumberFrom: "take n (renumberFrom i xs) = renumberFrom i (take n xs)"
proof (induction xs arbitrary: i n)
  case Nil
  then show ?case by simp
next
  case (Cons x xs)
  then show ?case by (cases n) simp_all
qed

lemma map_normalizedText_renumberFrom [simp]:
  "map normalizedText (renumberFrom i xs) = map normalizedText xs"
  by (induction xs arbitrary: i) simp_all

lemma map_questionId_renumberFrom:
  "map questionId (renumberFrom i xs) = map (\<lambda>k. i + int k) [0..<length xs]"
proof (induction xs arbitrary: i)
  case Nil
  then show ?case by simp
next
  case (Cons x xs)
  have "[0..<length (x # xs)] = 0 # map Suc [0..<length xs]"
    by (simp add: upt_conv_Cons map_Suc_upt del: upt_Suc)
  then show ?case
    using Cons.IH [of "i + 1"] by (simp add: algebra_simps comp_def del: upt_Suc)
qed

lemma ids_from_one: "map (\<lambda>k. 1 + int k) [0..<n] = map int [1..<Suc n]"
proof -
  have "map int [1..<Suc n] = map int (map Suc [0..<n])"
    by (simp add: map_Suc_upt del: upt_Suc)
  then show ?thesis by (simp add: comp_def del: upt_Suc)
qed

lemma firstSeen_append:
  "firstSeen seen (xs @ ys)
   = firstSeen seen xs @ firstSeen (seen \<union> normalizedText ` set xs) ys"
  by (induction xs arbitrary: seen) (simp_all add: insert_absorb)

text \<open>The inner loop in closed form, when every question text is a string.\<close>

lemma mergeQuestions_closed:
  "\<forall>q \<in> set qs. hasText q \<Longrightarrow>
   mergeQuestions qs (acc, seen, i) =
     Inr (acc @ renumberFrom i (firstSeen seen qs),
          seen \<union> normalizedText ` set qs,
          i + int (length (firstSeen seen qs)))"
proof (induction qs arbitrary: acc seen i)
  case Nil
  then show ?case by simp
next
  case (Cons q qs)
  then obtain s where s: "question q = JStr s"
    by (auto simp: hasText_def split: jsval.splits)
  then have k: "normalizedText q = trim (toLowerCase s)"
    by (simp add: normalizedText_def)
  from Cons have rest: "\<forall>q \<in> set qs. hasText q" by simp
  show ?case
    using s k Cons.IH [OF rest] by (simp add: Let_def insert_absorb algebra_simps)
qed

text \<open>The loop only comes to its end when every question text is a string.\<close>

lemma mergeQuestions_Inr_hasText:
  "mergeQuestions qs st = Inr st' \<Longrightarrow> \<forall>q \<in> set qs. hasText q"
proof (induction qs arbitrary: st)
  case Nil
  then show ?case by simp
next
  case (Cons q qs)
  obtain acc seen i where st: "st = (acc, seen, i)" by (cases st) auto
  from Cons.prems st show ?case
    by (auto simp: hasText_def Let_def split: jsval.splits if_splits dest: Cons.IH)
qed

lemma mergeChunks_closed:
  "\<forall>q \<in> set (inputQuestions cs). hasText q \<Longrightarrow>
   mergeChunks cs (acc, seen, i) =
     Inr (acc @ renumberFrom i (firstSeen seen (inputQuestions cs)),
          seen \<union> normalizedText ` set (inputQuestions cs),
          i + int (length (firstSeen seen (inputQuestions cs))))"
proof (induction cs arbitrary: acc seen i)
  case Nil
  then show ?case by simp
next
  case (Cons c cs)
  show ?case
  proof (cases c)
    case NotAnArray
    with Cons show ?thesis by simp
  next
    case (QuizArray qs)
    from Cons.prems QuizArray have a: "\<forall>q \<in> set qs. hasText q"
      and b: "\<forall>q \<in> set (inputQuestions cs). hasText q" by auto
    show ?thesis
      using QuizArray mergeQuestions_closed [OF a] Cons.IH [OF b]
      by (simp add: firstSeen_append renumberFrom_append Un_assoc image_Un algebra_simps)
  qed
qed

lemma mergeChunks_Inr_hasText:
  "mergeChunks cs st = Inr st' \<Longrightarrow> \<forall>q \<in> set (inputQuestions cs). hasText q"
proof (induction cs arbitrary: st)
  case Nil
  then show ?case by simp
next
  case (Cons c cs)
  show ?case
  proof (cases c)
    case NotAnArray
    with Cons show ?thesis by simp
  next
    case (QuizArray qs)
    with Cons.prems obtain st1
      where 1: "mergeQuestions qs st = Inr st1" and 2: "mergeChunks cs st1 = Inr st'"
      by (auto split: sum.splits)
    from mergeQuestions_Inr_hasText [OF 1] Cons.IH [OF 2] QuizArray show ?thesis by auto
  qed
qed

lemma mergeChunkQuizzes_ok:
  "\<forall>q \<in> set (inputQuestions cs). hasText q \<Longrightarrow>
   mergeChunkQuizzes cs = Inr (renumberFrom 1 (firstSeen {} (inputQuestions cs)))"
  by (simp add: mergeChunkQuizzes_def mergeChunks_closed)

lemma mergeChunkQuizzes_Inr:
  assumes "mergeChunkQuizzes cs = Inr out"
  shows "(\<forall>q \<in> set (inputQuestions cs). hasText q)
         \<and> out = renumberFrom 1 (firstSeen {} (inputQuestions cs))"
proof -
  from assms obtain st where st: "mergeChunks cs ([], {}, 1) = Inr st"
    by (auto simp: mergeChunkQuizzes_def split: sum.splits)
  from mergeChunks_Inr_hasText [OF st]
  have h: "\<forall>q \<in> set (inputQuestions cs). hasText q" .
  with assms mergeChunkQuizzes_ok [OF h] show ?thesis by simp
qed

text \<open>What the accepted questions are: the first carriers of their keys, in order.\<close>

lemma remdups_snoc: "remdups (ys @ [k]) = remdups (filter (\<lambda>y. y \<noteq> k) ys) @ [k]"
  by (induction ys) auto

lemma firstSeen_keys:
  "map normalizedText (firstSeen seen qs)
   = rev (remdups (rev (filter (\<lambda>k. k \<notin> seen) (map normalizedText qs))))"
proof (induction qs arbitrary: seen)
  case Nil
  then show ?case by simp
next
  case (Cons q qs)
  show ?case
  proof (cases "normalizedText q \<in> seen")
    case True
    then show ?thesis using Cons.IH [of seen] by simp
  next
    case False
    have f: "filter (\<lambda>y. y \<noteq> normalizedText q)
               (rev (filter (\<lambda>k. k \<notin> seen) (map normalizedText qs)))
             = rev (filter (\<lambda>k. k \<notin> insert (normalizedText q) seen) (map normalizedText qs))"
      by (simp add: rev_filter [symmetric] conj_commute)
    from False show ?thesis
      using Cons.IH [of "insert (normalizedText q) seen"] by (simp add: remdups_snoc f)
  qed
qed

lemma firstSeen_find:
  "e \<in> set (firstSeen seen qs) \<Longrightarrow>
   normalizedText e \<notin> seen \<and> find (\<lambda>q. normalizedText q = normalizedText e) qs = Some e"
proof (induction qs arbitrary: seen)
  case Nil
  then show ?case by simp
next
  case (Cons q qs)
  show ?case
  proof (cases "normalizedText q \<in> seen")
    case True
    with Cons.prems have "e \<in> set (firstSeen seen qs)" by simp
    from Cons.IH [OF this] True show ?thesis by auto
  next
    case False
    with Cons.prems
    have "e = q \<or> e \<in> set (firstSeen (insert (normalizedText q) seen) qs)" by simp
    then show ?thesis
    proof
      assume "e = q"
      with False show ?thesis by simp
    next
      assume "e \<in> set (firstSeen (insert (normalizedText q) seen) qs)"
      from Cons.IH [OF this] show ?thesis by auto
    qed
  qed
qed

lemma inputQuestions_QuizArray: "inputQuestions (map QuizArray xs) = concat xs"
  by (induction xs) simp_all

lemma generateQuiz_multi_chunk:
  "5000 \<le> length (vi_transcript v) \<Longrightarrow>
   generateQuiz generateContent parse v numQuestions difficulty
   = mergeAndTrim
       (map QuizArray
          (generateChunkQuizzes generateContent parse
             (splitTranscriptIntoChunks (Some (vi_transcript v))
                (calculateOptimalChunks (length (vi_transcript v))))
             (distributeQuestionsAcrossChunks numQuestions
                (int (length (splitTranscriptIntoChunks (Some (vi_transcript v))
                   (calculateOptimalChunks (length (vi_transcript v)))))))
             difficulty (vi_title v)))
       numQuestions"
  by (simp add: generateQuiz_def Let_def calculateOptimalChunks_def)

lemma mergeAndTrim_bounded:
  assumes "0 \<le> numQuestions" and a: "mergeAndTrim chunkQuizzes numQuestions = Inr out"
  shows "int (length out) \<le> numQuestions
         \<and> map questionId out = map int [1..<Suc (length out)]"
proof -
  from a obtain merged where m: "mergeChunkQuizzes chunkQuizzes = Inr merged"
    by (auto simp: mergeAndTrim_def split: sum.splits)
  define acc where "acc = firstSeen {} (inputQuestions chunkQuizzes)"
  from mergeChunkQuizzes_Inr [OF m] have merged: "merged = renumberFrom 1 acc"
    by (simp add: acc_def)
  from a m assms
  have out: "out = (if int (length merged) > numQuestions
                    then take (nat numQuestions) merged else merged)"
    by (auto simp: mergeAndTrim_def sliceTo_def split: if_splits)
  then have "out = renumberFrom 1 (if int (length merged) > numQuestions
                                   then take (nat numQuestions) acc else acc)"
    by (simp add: merged take_renumberFrom)
  then have ids: "map questionId out = map int [1..<Suc (length out)]"
    by (simp add: map_questionId_renumberFrom ids_from_one del: upt_Suc)
  from out assms have "int (length out) \<le> numQuestions" by auto
  with ids show ?thesis by simp
qed

text \<open>
  Claim C1. For a requested count \<open>numQuestions \<ge> 0\<close>, the end of the multi-chunk path of
  \<open>generateQuiz\<close> (merge, then trim) returns a list whenever every question text is a
  string, and any list it returns has at most \<open>numQuestions\<close> entries whose \<open>questionId\<close>
  are 1, 2, ..., k in list order, k being the length of the list. So has any list that
  \<open>generateQuiz\<close> returns for a transcript of 5000 characters or more.
\<close>

theorem merge_trim_bounded_contiguous:
  assumes "0 \<le> numQuestions"
  shows "((\<forall>q \<in> set (inputQuestions chunkQuizzes). hasText q) \<longrightarrow>
           (\<exists>out. mergeAndTrim chunkQuizzes numQuestions = Inr out))
       \<and> (\<forall>out. mergeAndTrim chunkQuizzes numQuestions = Inr out \<longrightarrow>
            int (length out) \<le> numQuestions
            \<and> map questionId out = map int [1..<Suc (length out)])
       \<and> (\<forall>out. 5000 \<le> length (vi_transcript v)
              \<and> generateQuiz generateContent parse v numQuestions difficulty = Inr out \<longrightarrow>
            int (length out) \<le> numQuestions
            \<and> map questionId out = map int [1..<Suc (length out)])"
proof (intro conjI)
  show "(\<forall>q \<in> set (inputQuestions chunkQuizzes). hasText q) \<longrightarrow>
           (\<exists>out. mergeAndTrim chunkQuizzes numQuestions = Inr out)"
    by (simp add: mergeAndTrim_def mergeChunkQuizzes_ok)
next
  show "\<forall>out. mergeAndTrim chunkQuizzes numQuestions = Inr out \<longrightarrow>
            int (length out) \<le> numQuestions
            \<and> map questionId out = map int [1..<Suc (length out)]"
    using mergeAndTrim_bounded [OF assms] by blast
next
  show "\<forall>out. 5000 \<le> length (vi_transcript v)
              \<and> generateQuiz generateContent parse v numQuestions difficulty = Inr out \<longrightarrow>
            int (length out) \<le> numQuestions
            \<and> map questionId out = map int [1..<Suc (length out)]"
  proof (intro allI impI)
    fix out
    assume a: "5000 \<le> length (vi_transcript v)
              \<and> generateQuiz generateContent parse v numQuestions difficulty = Inr out"
    then have "5000 \<le> length (vi_transcript v)" by simp
    from generateQuiz_multi_chunk [OF this, of generateContent parse numQuestions difficulty] a
    obtain cq where "mergeAndTrim cq numQuestions = Inr out" by auto
    from mergeAndTrim_bounded [OF assms this]
    show "int (length out) \<le> numQuestions
            \<and> map questionId out = map int [1..<Suc (length out)]" .
  qed
qed

theorem merge_trim_bounded_contiguous_witness:
  "(0::int) \<le> 2
   \<and> list_all hasText (inputQuestions sampleChunkQuizzes)
   \<and> mergeAndTrim sampleChunkQuizzes 2
       = Inr [sampleQuestion 1 ''What is a variable?'' ''A'',
              sampleQuestion 2 ''What is a loop?'' ''B'']
   \<and> map questionId [sampleQuestion 1 ''What is a variable?'' ''A'',
                      sampleQuestion 2 ''What is a loop?'' ''B''] = [1, 2]
   \<and> (0::int) \<le> 1
   \<and> 5000 \<le> length (vi_transcript longVideo)
   \<and> generateQuiz sampleModel sampleParse longVideo 1 ''medium''
       = Inr [sampleQ1\<lparr>questionId := 1\<rparr>]"
proof -
  have h: "mergeAndTrim sampleChunkQuizzes 2
           = Inr [sampleQuestion 1 ''What is a variable?'' ''A'',
                  sampleQuestion 2 ''What is a loop?'' ''B'']"
    by code_simp
  have l: "5000 \<le> length (vi_transcript longVideo)" by (simp add: longVideo_def)
  have g: "generateQuiz sampleModel sampleParse longVideo 1 ''medium''
           = Inr [sampleQ1\<lparr>questionId := 1\<rparr>]"
    by (simp add: sample_long_quiz sample_trim_one)
  from merge_trim_bounded_contiguous [of 2 sampleChunkQuizzes] h sample_hasText
    merge_trim_bounded_contiguous [of 1 "[]" longVideo sampleModel sampleParse "''medium''"] l g
  show ?thesis by (simp add: upt_rec list_all_iff)
qed

text \<open>
  Claim C2. \<open>mergeChunkQuizzes\<close> returns a list whenever every question text is a string.
  In any list it returns no two entries have the same normalized question text (lower
  case, trimmed); the normalized texts of the output are those of the input, each once, in
  the order of their first appearance (chunk after chunk, position after position); and
  every entry is, up to its \<open>questionId\<close>, the first question of the input that carries
  its normalized text.
\<close>

theorem merge_dedup_first_occurrence:
  "((\<forall>q \<in> set (inputQuestions chunkQuizzes). hasText q) \<longrightarrow>
      (\<exists>out. mergeChunkQuizzes chunkQuizzes = Inr out))
   \<and> (\<forall>out. mergeChunkQuizzes chunkQuizzes = Inr out \<longrightarrow>
        distinct (map normalizedText out)
        \<and> map normalizedText out
            = rev (remdups (rev (map normalizedText (inputQuestions chunkQuizzes))))
        \<and> (\<forall>e \<in> set out. \<exists>q.
              find (\<lambda>q. normalizedText q = normalizedText e) (inputQuestions chunkQuizzes)
                = Some q
              \<and> e = q\<lparr>questionId := questionId e\<rparr>))"
proof (rule conjI)
  show "(\<forall>q \<in> set (inputQuestions chunkQuizzes). hasText q) \<longrightarrow>
      (\<exists>out. mergeChunkQuizzes chunkQuizzes = Inr out)"
    by (simp add: mergeChunkQuizzes_ok)
next
  show "\<forall>out. mergeChunkQuizzes chunkQuizzes = Inr out \<longrightarrow>
        distinct (map normalizedText out)
        \<and> map normalizedText out
            = rev (remdups (rev (map normalizedText (inputQuestions chunkQuizzes))))
        \<and> (\<forall>e \<in> set out. \<exists>q.
              find (\<lambda>q. normalizedText q = normalizedText e) (inputQuestions chunkQuizzes)
                = Some q
              \<and> e = q\<lparr>questionId := questionId e\<rparr>)"
  proof (intro allI impI)
    fix out
    assume m: "mergeChunkQuizzes chunkQuizzes = Inr out"
    define inp where "inp = inputQuestions chunkQuizzes"
    from mergeChunkQuizzes_Inr [OF m] have out: "out = renumberFrom 1 (firstSeen {} inp)"
      by (simp add: inp_def)
    have keys: "map normalizedText out = rev (remdups (rev (map normalizedText inp)))"
      using firstSeen_keys [of "{}" inp] by (simp add: out)
    then have dist: "distinct (map normalizedText out)" by simp
    have first: "\<forall>e \<in> set out. \<exists>q.
              find (\<lambda>q. normalizedText q = normalizedText e) inp = Some q
              \<and> e = q\<lparr>questionId := questionId e\<rparr>"
    proof
      fix e
      assume "e \<in> set out"
      then obtain k where k: "k < length out" and e: "e = out ! k"
        by (auto simp: in_set_conv_nth)
      from k have k': "k < length (firstSeen {} inp)" by (simp add: out)
      let ?q = "firstSeen {} inp ! k"
      from k' e have eq: "e = ?q\<lparr>questionId := 1 + int k\<rparr>"
        by (simp add: out renumberFrom_nth)
      from k' have "?q \<in> set (firstSeen {} inp)" by simp
      from firstSeen_find [OF this]
      have "find (\<lambda>q. normalizedText q = normalizedText ?q) inp = Some ?q" by simp
      with eq show "\<exists>q. find (\<lambda>q. normalizedText q = normalizedText e) inp = Some q
              \<and> e = q\<lparr>questionId := questionId e\<rparr>" by simp
    qed
    from dist keys first
    show "distinct (map normalizedText out)
        \<and> map normalizedText out
            = rev (remdups (rev (map normalizedText (inputQuestions chunkQuizzes))))
        \<and> (\<forall>e \<in> set out. \<exists>q.
              find (\<lambda>q. normalizedText q = normalizedText e) (inputQuestions chunkQuizzes)
                = Some q
              \<and> e = q\<lparr>questionId := questionId e\<rparr>)"
      by (simp add: inp_def)
  qed
qed

theorem merge_dedup_first_occurrence_witness:
  "list_all hasText (inputQuestions sampleChunkQuizzes)
   \<and> mergeChunkQuizzes sampleChunkQuizzes
       = Inr [sampleQuestion 1 ''What is a variable?'' ''A'',
              sampleQuestion 2 ''What is a loop?'' ''B'',
              sampleQuestion 3 ''What is a type?'' ''C'']
   \<and> distinct (map normalizedText
        [sampleQuestion 1 ''What is a variable?'' ''A'',
         sampleQuestion 2 ''What is a loop?'' ''B'',
         sampleQuestion 3 ''What is a type?'' ''C''])
   \<and> sampleQuestion 1 ''What is a variable?'' ''A'' \<in> set (inputQuestions sampleChunkQuizzes)
   \<and> sampleQuestion 2 ''  what is a VARIABLE? '' ''D'' \<in> set (inputQuestions sampleChunkQuizzes)"
proof -
  have i: "sampleQuestion 1 ''What is a variable?'' ''A'' \<in> set (inputQuestions sampleChunkQuizzes)"
    "sampleQuestion 2 ''  what is a VARIABLE? '' ''D'' \<in> set (inputQuestions sampleChunkQuizzes)"
    by (simp_all add: sampleChunkQuizzes_def)
  from merge_dedup_first_occurrence [of sampleChunkQuizzes] sample_merge sample_hasText i
  show ?thesis by (simp add: list_all_iff)
qed

text \<open>
  Claim C10. Every entry of the list \<open>mergeChunkQuizzes\<close> returns has the question text,
  the options, the correct answer and the topic of the input question it was accepted
  from (the first question of the input with its normalized text); only its \<open>questionId\<close>
  is new: the position of the entry in the output, counted from 1.
\<close>

theorem merge_preserves_fields:
  assumes "mergeChunkQuizzes chunkQuizzes = Inr out" and "i < length out"
  shows "\<exists>q. find (\<lambda>q. normalizedText q = normalizedText (out ! i))
                (inputQuestions chunkQuizzes) = Some q
           \<and> question (out ! i) = question q
           \<and> options (out ! i) = options q
           \<and> correct_answer (out ! i) = correct_answer q
           \<and> topic (out ! i) = topic q
           \<and> questionId (out ! i) = int i + 1"
proof -
  define inp where "inp = inputQuestions chunkQuizzes"
  from mergeChunkQuizzes_Inr [OF assms(1)]
  have out: "out = renumberFrom 1 (firstSeen {} inp)"
    by (simp add: inp_def)
  from assms(2) have k: "i < length (firstSeen {} inp)" by (simp add: out)
  let ?q = "firstSeen {} inp ! i"
  from k have eq: "out ! i = ?q\<lparr>questionId := 1 + int i\<rparr>"
    by (simp add: out renumberFrom_nth)
  from k have "?q \<in> set (firstSeen {} inp)" by simp
  from firstSeen_find [OF this]
  have "find (\<lambda>q. normalizedText q = normalizedText (out ! i)) inp = Some ?q"
    by (simp add: eq)
  with eq show ?thesis by (simp add: inp_def)
qed

theorem merge_preserves_fields_witness:
  "mergeChunkQuizzes sampleChunkQuizzes
     = Inr [sampleQuestion 1 ''What is a variable?'' ''A'',
            sampleQuestion 2 ''What is a loop?'' ''B'',
            sampleQuestion 3 ''What is a type?'' ''C'']
   \<and> (2::nat) < length [sampleQuestion 1 ''What is a variable?'' ''A'',
                         sampleQuestion 2 ''What is a loop?'' ''B'',
                         sampleQuestion 3 ''What is a type?'' ''C'']
   \<and> (\<exists>q. find (\<lambda>q. normalizedText q = normalizedText (sampleQuestion 3 ''What is a type?'' ''C''))
              (inputQuestions sampleChunkQuizzes) = Some q
         \<and> question q = JStr ''What is a type?''
         \<and> correct_answer q = JStr ''C'')"
proof -
  have l: "(2::nat) < length [sampleQuestion 1 ''What is a variable?'' ''A'',
                             sampleQuestion 2 ''What is a loop?'' ''B'',
                             sampleQuestion 3 ''What is a type?'' ''C'']" by simp
  from merge_preserves_fields [OF sample_merge l] sample_merge l
  show ?thesis by (auto simp: sampleQuestion_def)
qed

section \<open>The transcript splitter\<close>

text \<open>
  Claim C7, as stated, fails: the empty transcript is shorter than 5000 characters and
  \<open>splitTranscriptIntoChunks\<close> returns no chunk for it, not the one chunk \<open>['''']\<close>.
\<close>

theorem split_short_counterexample:
  "length ('''' :: string) < 5000 \<and> splitTranscriptIntoChunks (Some '''') 4 \<noteq> ['''']"
  by (simp add: splitTranscriptIntoChunks_def)

text \<open>
  Claim C7, amended. For every transcript shorter than 5000 characters and every requested
  chunk count, \<open>splitTranscriptIntoChunks\<close> returns the single-element list holding the
  transcript unchanged when the transcript is not empty, and the empty list when it is.
\<close>

theorem split_short_transcript:
  assumes "length t < 5000"
  shows "splitTranscriptIntoChunks (Some t) numChunks = (if t = [] then [] else [t])"
  using assms by (simp add: splitTranscriptIntoChunks_def)

theorem split_short_transcript_witness:
  "length ''a short transcript'' < 5000
   \<and> splitTranscriptIntoChunks (Some ''a short transcript'') 3 = [''a short transcript'']"
  using split_short_transcript [of "''a short transcript''" 3] by simp

section \<open>Option cleaning\<close>

text \<open>
  Claim C8 says that an option string which does not begin with a label decoration (a
  letter A to D followed by one of the four punctuation characters) is stored unchanged
  apart from the trimming. \<open>cleanOption\<close> strips the labels the comment at the pattern
  names, as in \<open>A) cat\<close> and \<open>B. dog\<close>, but it also strips the leading letter of
  \<open>A cat\<close>, an option that holds none of the four punctuation characters: what is stored
  is \<open>cat\<close>, where trimming alone gives \<open>A cat\<close>.
\<close>

theorem cleanOption_strips_bare_letter:
  "cleanOption ''A) cat'' = ''cat''
   \<and> cleanOption ''B. dog'' = ''dog''
   \<and> set ''A cat'' \<inter> set '').:-'' = {}
   \<and> trim ''A cat'' = ''A cat''
   \<and> cleanOption ''A cat'' = ''cat''"
  by code_simp

section \<open>The cache lookup\<close>

text \<open>
  Claim C9. A lookup of a key that has a stored record returns the fields of that record
  and leaves the record stored with its access counter one higher and its last-accessed
  time set to the time of the lookup, every other key being untouched; a second lookup
  raises the counter by one again. A lookup of a key with no stored record returns
  nothing and leaves the cache as it was.
\<close>

theorem cache_hit_updates_access:
  "(db vid = Some r \<longrightarrow>
      fst (cacheLookup now db vid)
        = Some \<lparr> vi_id = videoId r, vi_title = title r, vi_description = description r,
                 vi_channelTitle = channelTitle r, vi_publishedAt = publishedAt r,
                 vi_duration = duration r, vi_durationMinutes = durationMinutes r,
                 vi_transcript = transcript r, vi_fromCache = True \<rparr>
      \<and> snd (cacheLookup now db vid) vid
        = Some (r\<lparr>lastAccessed := now, accessCount := accessCount r + 1\<rparr>)
      \<and> (\<forall>k. k \<noteq> vid \<longrightarrow> snd (cacheLookup now db vid) k = db k)
      \<and> snd (cacheLookup later (snd (cacheLookup now db vid)) vid) vid
        = Some (r\<lparr>lastAccessed := later, accessCount := accessCount r + 2\<rparr>))
   \<and> (db' vid' = None \<longrightarrow> cacheLookup now db' vid' = (None, db'))"
proof (intro conjI impI)
  assume hit: "db vid = Some r"
  then have one: "cacheLookup now db vid
      = (Some \<lparr> vi_id = videoId r, vi_title = title r, vi_description = description r,
                 vi_channelTitle = channelTitle r, vi_publishedAt = publishedAt r,
                 vi_duration = duration r, vi_durationMinutes = durationMinutes r,
                 vi_transcript = transcript r, vi_fromCache = True \<rparr>,
         db(vid \<mapsto> r\<lparr>lastAccessed := now, accessCount := accessCount r + 1\<rparr>))"
    by (simp add: cacheLookup_def updateAccess_def)
  from one show "fst (cacheLookup now db vid)
        = Some \<lparr> vi_id = videoId r, vi_title = title r, vi_description = description r,
                 vi_channelTitle = channelTitle r, vi_publishedAt = publishedAt r,
                 vi_duration = duration r, vi_durationMinutes = durationMinutes r,
                 vi_transcript = transcript r, vi_fromCache = True \<rparr>"
    by simp
  from one show "snd (cacheLookup now db vid) vid
        = Some (r\<lparr>lastAccessed := now, accessCount := accessCount r + 1\<rparr>)"
    by simp
  from one show "\<forall>k. k \<noteq> vid \<longrightarrow> snd (cacheLookup now db vid) k = db k"
    by simp
  from one show "snd (cacheLookup later (snd (cacheLookup now db vid)) vid) vid
        = Some (r\<lparr>lastAccessed := later, accessCount := accessCount r + 2\<rparr>)"
    by (simp add: cacheLookup_def updateAccess_def)
next
  assume "db' vid' = None"
  then show "cacheLookup now db' vid' = (None, db')"
    by (simp add: cacheLookup_def)
qed

theorem cache_hit_updates_access_witness:
  "sampleDb ''v1'' = Some sampleDoc
   \<and> snd (cacheLookup 500 sampleDb ''v1'') ''v1''
       = Some (sampleDoc\<lparr>lastAccessed := 500, accessCount := 2\<rparr>)
   \<and> snd (cacheLookup 700 (snd (cacheLookup 500 sampleDb ''v1'')) ''v1'') ''v1''
       = Some (sampleDoc\<lparr>lastAccessed := 700, accessCount := 3\<rparr>)
   \<and> accessCount sampleDoc = 1
   \<and> sampleDb ''v2'' = None
   \<and> cacheLookup 500 sampleDb ''v2'' = (None, sampleDb)"
proof -
  have h: "sampleDb ''v1'' = Some sampleDoc" "sampleDb ''v2'' = None"
    by (simp_all add: sampleDb_def)
  have c: "accessCount sampleDoc = 1" by (simp add: sampleDoc_def)
  from cache_hit_updates_access [of sampleDb "''v1''" sampleDoc 500 700 sampleDb "''v2''"] h c
  show ?thesis by simp
qed

section \<open>The chunk generator\<close>

text \<open>
  Claim C4, as stated, fails: asked for a quota of one question, a model answer holding
  two questions gives a list of two questions.
\<close>

theorem chunk_quota_counterexample:
  "1 < int (length (generateQuizFromChunk sampleModel sampleParse ''chunk'' 1 ''medium'' ''title'' 0))"
  by (simp add: sample_chunk)

text \<open>
  Claim C4, amended. When the model answers and its answer parses to an array, the list
  \<open>generateQuizFromChunk\<close> returns is the normalized array in full, one question for each
  element of the array, or the empty list when the normalization of an element throws; the
  quota is part of the prompt only and the result is never cut to it.
\<close>

theorem chunk_length_is_raw_length:
  assumes "generateContent (buildPrompt chunkText quota difficulty videoTitle chunkIndex)
           = Some text"
    and "parseQuizData parse text = Inr (JArr qs)"
  shows "(case normalizeFrom 0 qs of
            Inl e \<Rightarrow> generateQuizFromChunk generateContent parse chunkText quota difficulty
                       videoTitle chunkIndex = []
          | Inr xs \<Rightarrow> generateQuizFromChunk generateContent parse chunkText quota difficulty
                       videoTitle chunkIndex = xs \<and> length xs = length qs)"
  using assms
  by (auto simp: generateQuizFromChunk_def chunkBody_def split: sum.splits
      dest: normalizeFrom_length)

theorem chunk_length_is_raw_length_witness:
  "sampleModel (buildPrompt ''chunk'' 1 ''medium'' ''title'' 0) = Some sampleText
   \<and> parseQuizData sampleParse sampleText = Inr sampleParsed
   \<and> generateQuizFromChunk sampleModel sampleParse ''chunk'' 1 ''medium'' ''title'' 0
       = [sampleQ1, sampleQ2]
   \<and> normalizeQuizData sampleParsed = Inr [sampleQ1, sampleQ2]"
proof -
  have g: "sampleModel (buildPrompt ''chunk'' 1 ''medium'' ''title'' 0) = Some sampleText"
    by (simp add: sampleModel_def)
  have p: "parseQuizData sampleParse sampleText
           = Inr (JArr
     [JObj [(''question'', JStr ''Q1''),
            (''options'', JArr [JStr ''A) x'', JStr ''b'', JStr ''c'', JStr ''d'']),
            (''correctAnswer'', JStr ''A'')],
      JObj [(''question'', JStr ''Q2''),
            (''options'', JArr [JStr ''a'', JStr ''b'', JStr ''c'', JStr ''d'']),
            (''correct_answer'', JStr ''B''),
            (''topic'', JStr ''T'')]])"
    by (simp add: parseQuizData_def sampleParse_def sampleParsed_def)
  have n: "normalizeQuizData sampleParsed = Inr [sampleQ1, sampleQ2]" by code_simp
  from chunk_length_is_raw_length [where generateContent = sampleModel and parse = sampleParse, OF g p] g p n
  show ?thesis by (simp add: sampleParsed_def)
qed

text \<open>
  Claim C6. When the external generation call throws, and when the model's text fails
  the strict parse and either holds no bracketed substring or holds one that fails to
  parse too, \<open>generateQuizFromChunk\<close> returns the empty list. The fan-out returns one list
  per chunk, and the list of a chunk depends on the answer to that chunk's prompt only:
  two models that differ on the prompt of chunk \<open>i\<close> alone give the same lists for all
  other chunks.
\<close>

theorem chunk_failure_contained:
  "(g1 (buildPrompt chunkText quota difficulty videoTitle chunkIndex) = None \<longrightarrow>
      generateQuizFromChunk g1 parse chunkText quota difficulty videoTitle chunkIndex = [])
   \<and> (g2 (buildPrompt chunkText quota difficulty videoTitle chunkIndex) = Some text
       \<and> parse text = None
       \<and> (case jsonMatch text of None \<Rightarrow> True | Some m \<Rightarrow> parse m = None) \<longrightarrow>
      generateQuizFromChunk g2 parse chunkText quota difficulty videoTitle chunkIndex = [])
   \<and> length (generateChunkQuizzes g parse chunks questionsPerChunk difficulty videoTitle)
       = length chunks
   \<and> ((\<forall>p. p_section p \<noteq> int i + 1 \<longrightarrow> g' p = g p) \<longrightarrow>
       (\<forall>j < length chunks. j \<noteq> i \<longrightarrow>
          generateChunkQuizzes g' parse chunks questionsPerChunk difficulty videoTitle ! j
          = generateChunkQuizzes g parse chunks questionsPerChunk difficulty videoTitle ! j))"
proof (intro conjI impI allI)
  assume "g1 (buildPrompt chunkText quota difficulty videoTitle chunkIndex) = None"
  then show "generateQuizFromChunk g1 parse chunkText quota difficulty videoTitle chunkIndex = []"
    by (simp add: generateQuizFromChunk_def chunkBody_def)
next
  assume "g2 (buildPrompt chunkText quota difficulty videoTitle chunkIndex) = Some text
       \<and> parse text = None
       \<and> (case jsonMatch text of None \<Rightarrow> True | Some m \<Rightarrow> parse m = None)"
  then show "generateQuizFromChunk g2 parse chunkText quota difficulty videoTitle chunkIndex = []"
    by (auto simp: generateQuizFromChunk_def chunkBody_def parseQuizData_def
        split: option.splits)
next
  show "length (generateChunkQuizzes g parse chunks questionsPerChunk difficulty videoTitle)
       = length chunks"
    by (simp add: generateChunkQuizzes_def)
next
  fix j
  assume same: "\<forall>p. p_section p \<noteq> int i + 1 \<longrightarrow> g' p = g p"
    and j: "j < length chunks" "j \<noteq> i"
  have "g' (buildPrompt (chunks ! j) (questionsPerChunk ! j) difficulty videoTitle (int j))
        = g (buildPrompt (chunks ! j) (questionsPerChunk ! j) difficulty videoTitle (int j))"
    using same j by (simp add: buildPrompt_def)
  then show "generateChunkQuizzes g' parse chunks questionsPerChunk difficulty videoTitle ! j
          = generateChunkQuizzes g parse chunks questionsPerChunk difficulty videoTitle ! j"
    using j by (simp add: generateChunkQuizzes_def generateQuizFromChunk_def chunkBody_def)
qed

theorem chunk_failure_contained_witness:
  "generateQuizFromChunk (\<lambda>p. None) sampleParse ''c0'' 1 ''medium'' ''title'' 0 = []
   \<and> sampleParse ''Here you go: [not json] ok'' = None
   \<and> jsonMatch ''Here you go: [not json] ok'' = Some ''[not json]''
   \<and> sampleParse ''[not json]'' = None
   \<and> generateQuizFromChunk (\<lambda>p. Some ''Here you go: [not json] ok'') sampleParse
        ''c0'' 1 ''medium'' ''title'' 0 = []
   \<and> generateChunkQuizzes (\<lambda>p. if p_section p = 1 then None else sampleModel p) sampleParse
        [''c0'', ''c1''] [1, 1] ''medium'' ''title'' ! 1
      = generateChunkQuizzes sampleModel sampleParse
        [''c0'', ''c1''] [1, 1] ''medium'' ''title'' ! 1
   \<and> generateChunkQuizzes sampleModel sampleParse [''c0'', ''c1''] [1, 1] ''medium'' ''title'' ! 1
      = [sampleQ1, sampleQ2]"
proof -
  have p: "sampleParse ''Here you go: [not json] ok'' = None" "sampleParse ''[not json]'' = None"
    by (simp_all add: sampleParse_def sampleText_def)
  have m: "jsonMatch ''Here you go: [not json] ok'' = Some ''[not json]''" by code_simp
  have s: "generateChunkQuizzes sampleModel sampleParse [''c0'', ''c1''] [1, 1]
             ''medium'' ''title'' ! 1 = [sampleQ1, sampleQ2]"
    by (simp add: generateChunkQuizzes_def sample_chunk upt_rec)
  from chunk_failure_contained
         [of "\<lambda>p. None" "''c0''" 1 "''medium''" "''title''" 0 sampleParse
             "\<lambda>p. Some ''Here you go: [not json] ok''" "''Here you go: [not json] ok''"
             sampleModel "[''c0'', ''c1'']" "[1, 1]" 0
             "\<lambda>p. if p_section p = 1 then None else sampleModel p"]
       p m s
  show ?thesis by simp
qed

section \<open>The top-level call\<close>

text \<open>
  Claim C5, as stated, fails: called with the requested count -1 on a short transcript,
  \<open>generateQuiz\<close> is not rejected; the chunk generator runs and its two questions are
  returned.
\<close>

theorem generateQuiz_negative_counterexample:
  "generateQuiz sampleModel sampleParse shortVideo (- 1) ''medium'' = Inr [sampleQ1, sampleQ2]"
  by (rule sample_short_quiz)

text \<open>
  Claim C5, amended. \<open>generateQuiz\<close> does not check the requested count: for every count,
  negative ones included, a call on a transcript shorter than 5000 characters does not
  fail and returns the list of the chunk generator, run on the whole transcript with that
  count as its quota; and a call on a longer transcript returns a list whenever every
  question the chunk generators return has a string as its text.
\<close>

theorem generateQuiz_no_count_check:
  "(length (vi_transcript v) < 5000 \<longrightarrow>
      generateQuiz generateContent parse v numQuestions difficulty
      = Inr (generateQuizFromChunk generateContent parse (vi_transcript v) numQuestions
               difficulty (vi_title v) 0))
   \<and> (5000 \<le> length (vi_transcript v')
       \<and> (\<forall>qs \<in> set (generateChunkQuizzes generateContent parse
                        (splitTranscriptIntoChunks (Some (vi_transcript v'))
                           (calculateOptimalChunks (length (vi_transcript v'))))
                        (distributeQuestionsAcrossChunks numQuestions
                           (int (length (splitTranscriptIntoChunks (Some (vi_transcript v'))
                              (calculateOptimalChunks (length (vi_transcript v')))))))
                        difficulty (vi_title v')).
            \<forall>q \<in> set qs. hasText q) \<longrightarrow>
      (\<exists>out. generateQuiz generateContent parse v' numQuestions difficulty = Inr out))"
proof (intro conjI impI)
  assume "length (vi_transcript v) < 5000"
  then show "generateQuiz generateContent parse v numQuestions difficulty
      = Inr (generateQuizFromChunk generateContent parse (vi_transcript v) numQuestions
               difficulty (vi_title v) 0)"
    by (simp add: generateQuiz_def calculateOptimalChunks_def)
next
  let ?chunks = "splitTranscriptIntoChunks (Some (vi_transcript v'))
                   (calculateOptimalChunks (length (vi_transcript v')))"
  let ?cq = "generateChunkQuizzes generateContent parse ?chunks
               (distributeQuestionsAcrossChunks numQuestions (int (length ?chunks)))
               difficulty (vi_title v')"
  assume a: "5000 \<le> length (vi_transcript v') \<and> (\<forall>qs \<in> set ?cq. \<forall>q \<in> set qs. hasText q)"
  then have big: "1 < calculateOptimalChunks (length (vi_transcript v'))"
    by (simp add: calculateOptimalChunks_def)
  from a have "\<forall>q \<in> set (inputQuestions (map QuizArray ?cq)). hasText q"
    by (auto simp: inputQuestions_QuizArray)
  then have "\<exists>out. mergeAndTrim (map QuizArray ?cq) numQuestions = Inr out"
    by (simp add: mergeAndTrim_def mergeChunkQuizzes_ok)
  with big show "\<exists>out. generateQuiz generateContent parse v' numQuestions difficulty = Inr out"
    by (simp add: generateQuiz_def Let_def)
qed

theorem generateQuiz_no_count_check_witness:
  "length (vi_transcript shortVideo) < 5000
   \<and> generateQuiz sampleModel sampleParse shortVideo (- 1) ''medium''
       = Inr (generateQuizFromChunk sampleModel sampleParse (vi_transcript shortVideo) (- 1)
                ''medium'' (vi_title shortVideo) 0)
   \<and> 5000 \<le> length (vi_transcript longVideo)
   \<and> list_all (list_all hasText)
        (generateChunkQuizzes sampleModel sampleParse [''a'']
           (distributeQuestionsAcrossChunks (- 1) 1) ''medium'' (vi_title longVideo))
   \<and> generateQuiz sampleModel sampleParse longVideo (- 1) ''medium''
       = Inr [sampleQ1\<lparr>questionId := 1\<rparr>]"
proof -
  have s: "length (vi_transcript shortVideo) < 5000" by (simp add: shortVideo_def)
  have l: "5000 \<le> length (vi_transcript longVideo)" by (simp add: longVideo_def)
  have t: "list_all (list_all hasText)
        (generateChunkQuizzes sampleModel sampleParse [''a'']
           (distributeQuestionsAcrossChunks (- 1) 1) ''medium'' (vi_title longVideo))"
    by (simp add: generateChunkQuizzes_def sample_chunk sampleQ1_def sampleQ2_def hasText_def)
  from generateQuiz_no_count_check
         [of shortVideo sampleModel sampleParse "- 1" "''medium''" longVideo]
       s l t
  show ?thesis
    by (simp add: longVideo_chunks list_all_iff sample_long_quiz sample_trim_minus_one)
qed

end
